theory Spec2Isabelle
  imports Main
begin

section \<open>Strings and values\<close>

text \<open>
  A Python \<open>str\<close> is a sequence of Unicode code points; it is modelled as the list of
  its code points, so that \<open>strip\<close>, \<open>find\<close> and slicing count what Python counts.
  \<open>lit\<close> writes an ASCII literal of the source.
\<close>

type_synonym str = "nat list"

definition lit :: "string \<Rightarrow> str" where
  "lit cs = map of_char cs"

text \<open>The truth value Python gives \<open>if result:\<close> and \<open>x or default\<close> on an optional string.\<close>

fun truthy :: "str option \<Rightarrow> bool" where
  "truthy None = False"
| "truthy (Some s) = (s \<noteq> [])"

text \<open>The values a parameter dictionary holds: strings, integers and \<open>None\<close>.\<close>

datatype pyval = PyStr str | PyInt int | PyNone

type_synonym params = "(str \<times> pyval) list"

text \<open>\<open>d[k] = v\<close> on a dictionary kept in insertion order.\<close>

fun dict_set :: "params \<Rightarrow> str \<Rightarrow> pyval \<Rightarrow> params" where
  "dict_set [] k v = [(k, v)]"
| "dict_set ((k', v') # d) k v = (if k' = k then (k, v) # d else (k', v') # dict_set d k v)"

subsection \<open>The string methods the source calls\<close>

text \<open>\<open>str.isspace\<close> on one code point: the code points Python 3 counts as whitespace.\<close>

definition isspace :: "nat \<Rightarrow> bool" where
  "isspace c = (c \<in> set [9, 10, 11, 12, 13, 28, 29, 30, 31, 32, 133, 160, 5760,
     8192, 8193, 8194, 8195, 8196, 8197, 8198, 8199, 8200, 8201, 8202,
     8232, 8233, 8239, 8287, 12288])"

definition strip :: "str \<Rightarrow> str" where
  "strip s = dropWhile isspace (rev (dropWhile isspace (rev s)))"

definition startswith :: "str \<Rightarrow> str \<Rightarrow> bool" where
  "startswith s prefix = (take (length prefix) s = prefix)"

text \<open>\<open>s.find(sub)\<close>: the lowest index where \<open>sub\<close> starts, or \<open>-1\<close>.\<close>

fun find_from :: "nat \<Rightarrow> str \<Rightarrow> str \<Rightarrow> int" where
  "find_from i [] sub = (if sub = [] then int i else - 1)"
| "find_from i (c # cs) sub =
     (if startswith (c # cs) sub then int i else find_from (Suc i) cs sub)"

definition find_str :: "str \<Rightarrow> str \<Rightarrow> int" where
  "find_str s sub = find_from 0 s sub"

text \<open>\<open>sub in s\<close>.\<close>

definition contains :: "str \<Rightarrow> str \<Rightarrow> bool" where
  "contains s sub = (find_str s sub \<noteq> - 1)"

text \<open>The slices \<open>s[i:]\<close> and \<open>s[:j]\<close>; a negative index counts from the end.\<close>

definition slice_from :: "str \<Rightarrow> int \<Rightarrow> str" where
  "slice_from s i = (if i < 0 then drop (nat (int (length s) + i)) s else drop (nat i) s)"

definition slice_to :: "str \<Rightarrow> int \<Rightarrow> str" where
  "slice_to s j = (if j < 0 then take (nat (int (length s) + j)) s else take (nat j) s)"

text \<open>\<open>s.split(sep)\<close> for a separator of one code point; \<open>"".split(",")\<close> is \<open>[""]\<close>.\<close>

fun split :: "nat \<Rightarrow> str \<Rightarrow> str list" where
  "split sep [] = [[]]"
| "split sep (c # cs) =
     (if c = sep then [] # split sep cs
      else (case split sep cs of [] \<Rightarrow> [[c]] | w # ws \<Rightarrow> (c # w) # ws))"

section \<open>Data model: \<open>Task\<close> and \<open>TaskTree\<close>\<close>

text \<open>
  \<open>class Task(BaseModel)\<close>. The field \<open>id\<close> is named \<open>task_id\<close> here.
  \<open>status\<close> is a plain string in the source (default \<open>"pending"\<close>), \<open>result\<close> an
  optional string (default \<open>None\<close>).
\<close>

record Task =
  task_id :: str
  name :: str
  description :: str
  executor_type :: str
  dependencies :: "str list"
  parameters :: params
  status :: str
  result :: "str option"

text \<open>
  \<open>class TaskTree(BaseModel)\<close>. Both constructors of the source pass as \<open>root_task\<close>
  the object that also heads \<open>tasks\<close>; the operations below read and write \<open>tasks\<close>
  only, and the field \<open>root_task\<close> is read only for its name, which nothing changes.
\<close>

record TaskTree =
  root_task :: Task
  tasks :: "Task list"

subsection \<open>\<open>TaskTree.get_ready_tasks\<close>\<close>

text \<open>
  \<open>all(any(t.id == dep_id and t.status == "completed" for t in self.tasks)
        for dep_id in task.dependencies) if task.dependencies else True\<close>
\<close>

definition all_deps_completed :: "Task list \<Rightarrow> Task \<Rightarrow> bool" where
  "all_deps_completed self_tasks task =
     (if dependencies task \<noteq> []
      then list_all
             (\<lambda>dep_id. list_ex (\<lambda>t. task_id t = dep_id \<and> status t = lit ''completed'') self_tasks)
             (dependencies task)
      else True)"

text \<open>The \<open>for task in self.tasks\<close> loop, with \<open>ready_tasks\<close> as the accumulator.\<close>

fun get_ready_loop :: "Task list \<Rightarrow> Task list \<Rightarrow> Task list \<Rightarrow> Task list" where
  "get_ready_loop self_tasks [] ready_tasks = ready_tasks"
| "get_ready_loop self_tasks (task # rest) ready_tasks =
     (if status task = lit ''pending''
      then (if all_deps_completed self_tasks task
            then get_ready_loop self_tasks rest (ready_tasks @ [task])
            else get_ready_loop self_tasks rest ready_tasks)
      else get_ready_loop self_tasks rest ready_tasks)"

definition get_ready_tasks :: "TaskTree \<Rightarrow> Task list" where
  "get_ready_tasks self = get_ready_loop (tasks self) (tasks self) []"

subsection \<open>\<open>TaskTree.update_task_status\<close>\<close>

text \<open>
  The loop stops at the first task whose id matches (\<open>break\<close>); it sets the status, and
  the result only when the given result is truthy. The log line is not part of the graph.
\<close>

fun update_loop :: "Task list \<Rightarrow> str \<Rightarrow> str \<Rightarrow> str option \<Rightarrow> Task list" where
  "update_loop [] tid st res = []"
| "update_loop (task # rest) tid st res =
     (if task_id task = tid
      then task\<lparr>status := st, result := (if truthy res then res else result task)\<rparr> # rest
      else task # update_loop rest tid st res)"

definition update_task_status :: "TaskTree \<Rightarrow> str \<Rightarrow> str \<Rightarrow> str option \<Rightarrow> TaskTree" where
  "update_task_status self tid st res = self\<lparr>tasks := update_loop (tasks self) tid st res\<rparr>"

section \<open>Plan parsing: \<open>TaskPlanner\<close>\<close>

text \<open>
  \<open>Task(id=..., name=..., description=..., executor_type=..., dependencies=..., parameters=...)\<close>:
  the constructor leaves \<open>status\<close> at \<open>"pending"\<close> and \<open>result\<close> at \<open>None\<close>.
\<close>

definition new_Task :: "str \<Rightarrow> str \<Rightarrow> str \<Rightarrow> str \<Rightarrow> str list \<Rightarrow> params \<Rightarrow> Task" where
  "new_Task i n d e deps ps =
     \<lparr>task_id = i, name = n, description = d, executor_type = e,
      dependencies = deps, parameters = ps, status = lit ''pending'', result = None\<rparr>"

text \<open>The string constants of the source that are not ASCII, by code point.\<close>

definition investment_analysis :: str where
  "investment_analysis = [25237, 36164, 20998, 26512]"

definition default_task_name :: str where
  "default_task_name = [40664, 35748, 20219, 21153]"

definition default_task_description :: str where
  "default_task_description = [40664, 35748, 25551, 36848]"

definition tencent :: str where
  "tencent = [33150, 35759]"

definition tencent_holdings :: str where
  "tencent_holdings = [33150, 35759, 25511, 32929]"

subsection \<open>The element tree\<close>

text \<open>
  What the source reads of an \<open>xml.etree.ElementTree.Element\<close>: its tag, its text
  (\<open>None\<close> when there is none) and its child elements in document order.
\<close>

datatype element = Element (elem_tag: str) (elem_text: "str option") (elem_children: "element list")

text \<open>\<open>e.find(tag)\<close>: the first child with that tag, or \<open>None\<close>; \<open>e.findall(tag)\<close>: all of them.\<close>

definition find_elem :: "element \<Rightarrow> str \<Rightarrow> element option" where
  "find_elem e t = List.find (\<lambda>c. elem_tag c = t) (elem_children e)"

definition findall :: "element \<Rightarrow> str \<Rightarrow> element list" where
  "findall e t = filter (\<lambda>c. elem_tag c = t) (elem_children e)"

text \<open>The exceptions the planner catches.\<close>

datatype exn = ParseError | AttributeError | ChainError str

subsection \<open>\<open>TaskPlanner._create_default_task_tree\<close>\<close>

definition create_default_task_tree :: "str \<Rightarrow> TaskTree" where
  "create_default_task_tree user_query =
     (let symbol = (if contains user_query (lit ''0700'') \<or> contains user_query tencent
                    then lit ''0700.HK'' else lit ''0700.HK'');
          root = new_Task (lit ''root'') investment_analysis user_query (lit ''coordinator'') [] []
      in \<lparr>root_task = root,
          tasks =
           [root,
            new_Task (lit ''data_collection'')
              [22522, 30784, 25968, 25454, 25910, 38598]
              ([25910, 38598] @ symbol @
               [30340, 22522, 30784, 36130, 21153, 21644, 24066, 22330, 25968, 25454])
              (lit ''data_collector'')
              []
              [(lit ''symbol'', PyStr symbol), (lit ''period'', PyStr (lit ''1y''))],
            new_Task (lit ''technical_analysis'')
              [25216, 26415, 38754, 20998, 26512]
              ([20998, 26512] @ symbol @
               [30340, 25216, 26415, 25351, 26631, 21644, 22270, 34920, 24418, 24577])
              (lit ''technical_analyst'')
              [lit ''data_collection'']
              [(lit ''symbol'', PyStr symbol), (lit ''indicators'', PyStr (lit ''MA,RSI,MACD''))],
            new_Task (lit ''news_analysis'')
              [28040, 24687, 38754, 20998, 26512]
              [20998, 26512, 30456, 20851, 26032, 38395, 21644, 24066, 22330, 24773, 32490,
               23545, 25237, 36164, 30340, 24433, 21709]
              (lit ''news_analyst'')
              []
              [(lit ''keyword'', PyStr tencent_holdings), (lit ''days'', PyInt 7)],
            new_Task (lit ''risk_assessment'')
              [39118, 38505, 35780, 20272]
              [20840, 38754, 35780, 20272, 25237, 36164, 39118, 38505, 21644, 28508, 22312,
               25910, 30410]
              (lit ''risk_assessor'')
              [lit ''data_collection'']
              [(lit ''position_size'', PyStr (lit ''medium'')), (lit ''market_cap'', PyStr (lit ''large''))],
            new_Task (lit ''report_generation'')
              [25237, 36164, 25253, 21578, 29983, 25104]
              [25972, 21512, 25152, 26377, 20998, 26512, 32467, 26524, 65292, 29983, 25104,
               32508, 21512, 25237, 36164, 24314, 35758]
              (lit ''report_generator'')
              [lit ''technical_analysis'', lit ''news_analysis'', lit ''risk_assessment'']
              []]\<rparr>)"

subsection \<open>\<open>TaskPlanner._parse_task_tree_xml\<close>\<close>

text \<open>The cleaning of the raw text before it is handed to the XML parser.\<close>

definition clean_xml_text :: "str \<Rightarrow> str" where
  "clean_xml_text xml_text0 =
     (let xml_text = strip xml_text0 in
      if \<not> startswith xml_text (lit ''<'')
      then (let start_idx = find_str xml_text (lit ''<task_tree>'') in
            if start_idx \<noteq> - 1
            then (let xml_text1 = slice_from xml_text start_idx;
                      end_idx = find_str xml_text1 (lit ''</task_tree>'')
                                + int (length (lit ''</task_tree>''))
                  in slice_to xml_text1 end_idx)
            else xml_text)
      else xml_text)"

text \<open>
  \<open>deps = [d.strip() for d in deps_elem.text.split(',') if d.strip()]\<close>, when the
  element is there and its text is truthy; \<open>[]\<close> otherwise.
\<close>

definition parse_deps :: "element \<Rightarrow> str list" where
  "parse_deps task_elem =
     (case find_elem task_elem (lit ''dependencies'') of
        None \<Rightarrow> []
      | Some deps_elem \<Rightarrow>
          (case elem_text deps_elem of
             None \<Rightarrow> []
           | Some txt \<Rightarrow>
               (if txt \<noteq> [] then map strip (filter (\<lambda>d. strip d \<noteq> []) (split 44 txt))
                else [])))"

text \<open>\<open>for param in params_elem: params[param.tag] = param.text\<close>.\<close>

definition text_value :: "str option \<Rightarrow> pyval" where
  "text_value t = (case t of None \<Rightarrow> PyNone | Some s \<Rightarrow> PyStr s)"

definition parse_params :: "element \<Rightarrow> params" where
  "parse_params task_elem =
     (case find_elem task_elem (lit ''parameters'') of
        None \<Rightarrow> []
      | Some params_elem \<Rightarrow>
          foldl (\<lambda>ps param. dict_set ps (elem_tag param) (text_value (elem_text param)))
            [] (elem_children params_elem))"

text \<open>
  \<open>task_elem.find(tag).text\<close>: when the child is absent, \<open>find\<close> returns \<open>None\<close> and
  reading \<open>.text\<close> raises \<open>AttributeError\<close>.
\<close>

definition field_text :: "element \<Rightarrow> str \<Rightarrow> exn + str option" where
  "field_text task_elem t =
     (case find_elem task_elem t of None \<Rightarrow> Inl AttributeError | Some e \<Rightarrow> Inr (elem_text e))"

text \<open>\<open>x or default\<close> on an optional string.\<close>

definition or_default :: "str option \<Rightarrow> str \<Rightarrow> str" where
  "or_default t d = (case t of None \<Rightarrow> d | Some s \<Rightarrow> (if s \<noteq> [] then s else d))"

text \<open>
  One pass of the loop over \<open>tasks_elem.findall('task')\<close>. \<open>uuid4\<close> is the generator of
  fresh ids and \<open>n\<close> the number of ids drawn so far; the keyword arguments of \<open>Task\<close> are
  evaluated in the order id, name, description, executor_type.
\<close>

definition parse_task :: "(nat \<Rightarrow> str) \<Rightarrow> nat \<Rightarrow> element \<Rightarrow> exn + (Task \<times> nat)" where
  "parse_task uuid4 n task_elem =
     (let deps = parse_deps task_elem;
          ps = parse_params task_elem
      in case field_text task_elem (lit ''id'') of
           Inl e \<Rightarrow> Inl e
         | Inr id_text \<Rightarrow>
             (let n' = (if truthy id_text then n else Suc n);
                  i = or_default id_text (uuid4 n)
              in case field_text task_elem (lit ''name'') of
                   Inl e \<Rightarrow> Inl e
                 | Inr name_text \<Rightarrow>
                     (case field_text task_elem (lit ''description'') of
                        Inl e \<Rightarrow> Inl e
                      | Inr description_text \<Rightarrow>
                          (case field_text task_elem (lit ''executor_type'') of
                             Inl e \<Rightarrow> Inl e
                           | Inr executor_text \<Rightarrow>
                               Inr (new_Task i
                                      (or_default name_text default_task_name)
                                      (or_default description_text default_task_description)
                                      (or_default executor_text (lit ''data_collector''))
                                      deps ps, n')))))"

fun parse_tasks :: "(nat \<Rightarrow> str) \<Rightarrow> nat \<Rightarrow> element list \<Rightarrow> Task list \<Rightarrow> exn + Task list" where
  "parse_tasks uuid4 n [] tasks_acc = Inr tasks_acc"
| "parse_tasks uuid4 n (task_elem # rest) tasks_acc =
     (case parse_task uuid4 n task_elem of
        Inl e \<Rightarrow> Inl e
      | Inr (task, n') \<Rightarrow> parse_tasks uuid4 n' rest (tasks_acc @ [task]))"

text \<open>
  The body of the \<open>try\<close>. \<open>fromstring\<close> is \<open>ET.fromstring\<close>: the root element, or \<open>None\<close>
  when it raises \<open>ParseError\<close>. The source also looks up the \<open>root_task\<close> element and
  never reads it: the root task is built from constants and the user's query.
\<close>

definition parse_task_tree_body ::
  "(str \<Rightarrow> element option) \<Rightarrow> (nat \<Rightarrow> str) \<Rightarrow> str \<Rightarrow> str \<Rightarrow> exn + TaskTree" where
  "parse_task_tree_body fromstring uuid4 xml_text user_query =
     (case fromstring (clean_xml_text xml_text) of
        None \<Rightarrow> Inl ParseError
      | Some root \<Rightarrow>
          (let root_task = new_Task (lit ''root'') investment_analysis user_query
                             (lit ''coordinator'') [] []
           in case find_elem root (lit ''tasks'') of
                None \<Rightarrow> Inr \<lparr>root_task = root_task, tasks = [root_task]\<rparr>
              | Some tasks_elem \<Rightarrow>
                  (case parse_tasks uuid4 0 (findall tasks_elem (lit ''task'')) [root_task] of
                     Inl e \<Rightarrow> Inl e
                   | Inr ts \<Rightarrow> Inr \<lparr>root_task = root_task, tasks = ts\<rparr>)))"

text \<open>\<open>except Exception\<close>: any failure of the body gives the default tree.\<close>

definition parse_task_tree_xml ::
  "(str \<Rightarrow> element option) \<Rightarrow> (nat \<Rightarrow> str) \<Rightarrow> str \<Rightarrow> str \<Rightarrow> TaskTree" where
  "parse_task_tree_xml fromstring uuid4 xml_text user_query =
     (case parse_task_tree_body fromstring uuid4 xml_text user_query of
        Inl e \<Rightarrow> create_default_task_tree user_query
      | Inr tree \<Rightarrow> tree)"

subsection \<open>\<open>TaskPlanner.create_task_tree\<close>\<close>

text \<open>
  \<open>chain\<close> is the plan generator (\<open>self.chain.invoke\<close> and the content of its response):
  it returns the plan text or raises.
\<close>

definition create_task_tree ::
  "(str \<Rightarrow> exn + str) \<Rightarrow> (str \<Rightarrow> element option) \<Rightarrow> (nat \<Rightarrow> str) \<Rightarrow> str \<Rightarrow> TaskTree" where
  "create_task_tree chain fromstring uuid4 user_query =
     (case chain user_query of
        Inl e \<Rightarrow> create_default_task_tree user_query
      | Inr task_tree_xml \<Rightarrow> parse_task_tree_xml fromstring uuid4 task_tree_xml user_query)"

section \<open>Executors\<close>

text \<open>
  An agent is the provider behind an executor (\<open>self.agent.invoke\<close> and the reading of
  its last message): given the task's name, description and parameters it returns a text
  or raises, and it may answer differently at each call, so it runs on a world \<open>'w\<close>.
  \<open>Inl\<close> carries the text of the exception raised, \<open>Inr\<close> the text returned.
\<close>

type_synonym 'w agent = "'w \<Rightarrow> str \<Rightarrow> str \<Rightarrow> params \<Rightarrow> (str + str) \<times> 'w"

record 'w BaseExecutor =
  executor_name :: str
  agent :: "'w agent"

text \<open>The prefix of the text \<open>BaseExecutor.execute\<close> returns when the agent raises.\<close>

definition execution_failed :: str where
  "execution_failed = [25191, 34892, 22833, 36133, 58, 32]"

text \<open>
  \<open>BaseExecutor.execute\<close>: the \<open>try\<close> returns the agent's text, the \<open>except Exception\<close>
  returns the failure text; the context is not read. The result is \<open>Inr\<close> for a
  returned value and \<open>Inl\<close> for an exception that leaves the method.
\<close>

definition execute :: "'w BaseExecutor \<Rightarrow> 'w \<Rightarrow> Task \<Rightarrow> Task list \<Rightarrow> (str + str) \<times> 'w" where
  "execute ex w task context =
     (case agent ex w (name task) (description task) (parameters task) of
        (Inr content, w') \<Rightarrow> (Inr content, w')
      | (Inl e, w') \<Rightarrow> (Inr (execution_failed @ e), w'))"

record 'w ExecutorManager =
  data_collector :: "'w BaseExecutor"
  technical_analyst :: "'w BaseExecutor"
  news_analyst :: "'w BaseExecutor"
  risk_assessor :: "'w BaseExecutor"
  report_generator :: "'w BaseExecutor"

text \<open>\<open>self.executors.get(executor_type, self.executors["data_collector"])\<close>.\<close>

definition get_executor :: "'w ExecutorManager \<Rightarrow> str \<Rightarrow> 'w BaseExecutor" where
  "get_executor m kind =
     (if kind = lit ''data_collector'' then data_collector m
      else if kind = lit ''technical_analyst'' then technical_analyst m
      else if kind = lit ''news_analyst'' then news_analyst m
      else if kind = lit ''risk_assessor'' then risk_assessor m
      else if kind = lit ''report_generator'' then report_generator m
      else data_collector m)"

definition execute_task :: "'w ExecutorManager \<Rightarrow> 'w \<Rightarrow> Task \<Rightarrow> Task list \<Rightarrow> (str + str) \<times> 'w" where
  "execute_task m w task context = execute (get_executor m (executor_type task)) w task context"

section \<open>The scheduler: \<open>execution_node\<close>\<close>

text \<open>
  The body of \<open>for task in ready_tasks\<close> for one task. The root is completed with no
  result and no executor call; any other task is run and marked \<open>"completed"\<close> with the
  returned text, or \<open>"failed"\<close> with the exception's text when \<open>execute_task\<close> raises.
\<close>

definition run_task :: "'w ExecutorManager \<Rightarrow> 'w \<times> TaskTree \<Rightarrow> Task \<Rightarrow> 'w \<times> TaskTree" where
  "run_task m s task =
     (case s of (w, task_tree) \<Rightarrow>
        if task_id task = lit ''root''
        then (w, update_task_status task_tree (task_id task) (lit ''completed'') None)
        else (let context = filter (\<lambda>t. status t = lit ''completed'') (tasks task_tree)
              in case execute_task m w task context of
                   (Inr res, w') \<Rightarrow>
                     (w', update_task_status task_tree (task_id task) (lit ''completed'') (Some res))
                 | (Inl e, w') \<Rightarrow>
                     (w', update_task_status task_tree (task_id task) (lit ''failed'') (Some e))))"

text \<open>The \<open>for\<close> loop over the list of ready tasks computed at the top of the iteration.\<close>

fun run_ready_tasks :: "'w ExecutorManager \<Rightarrow> 'w \<times> TaskTree \<Rightarrow> Task list \<Rightarrow> 'w \<times> TaskTree" where
  "run_ready_tasks m s [] = s"
| "run_ready_tasks m s (task # rest) = run_ready_tasks m (run_task m s task) rest"

text \<open>
  \<open>while True\<close>: the loop leaves when no task is ready. A run that never leaves the loop
  has the value \<open>None\<close>.
\<close>

partial_function (option) execution_loop ::
  "'w ExecutorManager \<Rightarrow> 'w \<times> TaskTree \<Rightarrow> ('w \<times> TaskTree) option" where
  "execution_loop m s =
     (if get_ready_tasks (snd s) = [] then Some s
      else execution_loop m (run_ready_tasks m s (get_ready_tasks (snd s))))"

declare execution_loop.simps [code]

section \<open>Example inputs\<close>

text \<open>
  A graph with a completed root, a task with no dependency, a task waiting for it, a task
  with a dependency that names no task, and a task waiting for the root.
\<close>

definition ex1_tree :: TaskTree where
  "ex1_tree =
     (let root = (new_Task (lit ''root'') (lit ''r'') (lit ''q'') (lit ''coordinator'') [] [])
                   \<lparr>status := lit ''completed''\<rparr>
      in \<lparr>root_task = root,
          tasks = [root,
                   new_Task (lit ''a'') (lit ''A'') [] (lit ''data_collector'') [] [],
                   new_Task (lit ''b'') (lit ''B'') [] (lit ''data_collector'') [lit ''a''] [],
                   new_Task (lit ''c'') (lit ''C'') [] (lit ''data_collector'') [lit ''ghost''] [],
                   new_Task (lit ''d'') (lit ''D'') [] (lit ''data_collector'') [lit ''root''] []]\<rparr>)"

text \<open>
  Agents for the examples: one that always returns a text and one that always raises.
  The manager gives the raising agent to the technical analyst.
\<close>

definition ok_agent :: "unit agent" where
  "ok_agent w n d ps = (Inr (lit ''ok''), w)"

definition raising_agent :: "unit agent" where
  "raising_agent w n d ps = (Inl (lit ''boom''), w)"

definition ex_manager :: "unit ExecutorManager" where
  "ex_manager =
     \<lparr>data_collector = \<lparr>executor_name = lit ''dc'', agent = ok_agent\<rparr>,
      technical_analyst = \<lparr>executor_name = lit ''ta'', agent = raising_agent\<rparr>,
      news_analyst = \<lparr>executor_name = lit ''na'', agent = ok_agent\<rparr>,
      risk_assessor = \<lparr>executor_name = lit ''ra'', agent = ok_agent\<rparr>,
      report_generator = \<lparr>executor_name = lit ''rg'', agent = ok_agent\<rparr>\<rparr>"

text \<open>Plan generators and XML parsers for the examples, and a generator of fresh ids.\<close>

definition garbage_chain :: "str \<Rightarrow> exn + str" where
  "garbage_chain q = Inr (lit ''I cannot plan this.'')"

definition failing_chain :: "str \<Rightarrow> exn + str" where
  "failing_chain q = Inl (ChainError (lit ''timeout''))"

definition no_xml :: "str \<Rightarrow> element option" where
  "no_xml x = None"

definition uuid_ex :: "nat \<Rightarrow> str" where
  "uuid_ex n = lit ''uuid-'' @ replicate (Suc n) 120"

text \<open>
  The element tree of a plan with three subtasks in a chain: \<open>a\<close> with no dependency,
  \<open>b\<close> depending on \<open>a\<close>, \<open>c\<close> depending on \<open>b\<close>.
\<close>

definition leaf :: "string \<Rightarrow> str option \<Rightarrow> element" where
  "leaf t txt = Element (lit t) txt []"

definition plan_task :: "str \<Rightarrow> str option \<Rightarrow> element" where
  "plan_task i deps =
     Element (lit ''task'') None
       [leaf ''id'' (Some i), leaf ''name'' (Some (lit ''step'')),
        leaf ''description'' (Some (lit ''work'')),
        leaf ''executor_type'' (Some (lit ''data_collector'')),
        leaf ''dependencies'' deps,
        Element (lit ''parameters'') None [leaf ''symbol'' (Some (lit ''X''))]]"










text \<open>
  A subtask with no \<open>id\<close> element, a subtask whose fields are all there and empty, and a
  plan holding the subtask \<open>A\<close> and one more subtask.
\<close>

definition task_without_id :: element where
  "task_without_id =
     Element (lit ''task'') None
       [leaf ''name'' (Some (lit ''step'')),
        leaf ''description'' (Some (lit ''work'')),
        leaf ''executor_type'' (Some (lit ''data_collector'')),
        leaf ''dependencies'' None]"

definition task_with_empty_fields :: element where
  "task_with_empty_fields =
     Element (lit ''task'') None
       [leaf ''id'' None, leaf ''name'' None, leaf ''description'' None,
        leaf ''executor_type'' None, leaf ''dependencies'' None]"

definition one_task_plan :: "element \<Rightarrow> element" where
  "one_task_plan task_elem =
     Element (lit ''task_tree'') None
       [Element (lit ''root_task'') None [leaf ''id'' (Some (lit ''root''))],
        Element (lit ''tasks'') None [plan_task (lit ''A'') None, task_elem]]"

definition without_id_fromstring :: "str \<Rightarrow> element option" where
  "without_id_fromstring x = Some (one_task_plan task_without_id)"

definition empty_fields_fromstring :: "str \<Rightarrow> element option" where
  "empty_fields_fromstring x = Some (one_task_plan task_with_empty_fields)"

text \<open>The id and the dependencies of a task: the shape of a graph is the list of these.\<close>

definition id_and_deps :: "Task \<Rightarrow> str \<times> str list" where
  "id_and_deps t = (task_id t, dependencies t)"

text \<open>
  A graph whose second task is run by the raising agent and whose third task waits for
  the second.
\<close>

definition failing_step_tree :: TaskTree where
  "failing_step_tree =
     (let root = new_Task (lit ''root'') (lit ''r'') (lit ''q'') (lit ''coordinator'') [] []
      in \<lparr>root_task = root,
          tasks = [root,
                   new_Task (lit ''ta'') (lit ''T'') [] (lit ''technical_analyst'') [] [],
                   new_Task (lit ''rep'') (lit ''R'') [] (lit ''report_generator'') [lit ''ta''] []]\<rparr>)"

text \<open>A parser that reads a plan in which two subtasks carry the id \<open>A\<close>.\<close>

definition dup_fromstring :: "str \<Rightarrow> element option" where
  "dup_fromstring x = Some (one_task_plan (plan_task (lit ''A'') None))"

text \<open>The fallback graph, after the scheduler's step on its root, and then on its second task.\<close>

definition fallback_tree :: TaskTree where
  "fallback_tree = create_task_tree garbage_chain no_xml uuid_ex (lit ''analyze X'')"

definition fallback_after_root :: TaskTree where
  "fallback_after_root = snd (run_task ex_manager ((), fallback_tree) (tasks fallback_tree ! 0))"

definition fallback_after_data :: TaskTree where
  "fallback_after_data =
     snd (run_task ex_manager ((), fallback_after_root) (tasks fallback_tree ! 1))"

section \<open>Graphs the program can reach\<close>

text \<open>
  The graphs a run can hold: the one the planner returns, and any graph the scheduler's
  step on a task (\<open>run_task\<close>) makes of a reachable one.
\<close>

inductive reachable :: "'w ExecutorManager \<Rightarrow> TaskTree \<Rightarrow> bool"
  for m :: "'w ExecutorManager" where
  planned: "reachable m (create_task_tree chain fromstring uuid4 q)"
| scheduled: "reachable m T \<Longrightarrow> reachable m (snd (run_task m (w, T) task))"

text \<open>A task is pending with no result, or completed, or failed.\<close>

definition status_result_ok :: "Task \<Rightarrow> bool" where
  "status_result_ok t =
     ((status t = lit ''pending'' \<and> result t = None)
      \<or> status t = lit ''completed'' \<or> status t = lit ''failed'')"

text \<open>A pending task with no dependency that stands behind another task with the same id.\<close>

definition shadowed_ready :: "Task list \<Rightarrow> bool" where
  "shadowed_ready ts =
     (\<exists>pre t post. ts = pre @ t # post \<and> status t = lit ''pending'' \<and> dependencies t = []
        \<and> task_id t \<in> task_id ` set pre)"

text \<open>The number of pending tasks: what a pass of the scheduler makes smaller.\<close>

definition count_pending :: "Task list \<Rightarrow> nat" where
  "count_pending ts = length (filter (\<lambda>t. status t = lit ''pending'') ts)"

section \<open>What a task keeps for life\<close>

text \<open>
  The fields of a task that make the graph's topology: everything but \<open>status\<close> and
  \<open>result\<close>.
\<close>

definition topology :: "Task \<Rightarrow> str \<times> str \<times> str \<times> str \<times> str list \<times> params" where
  "topology t = (task_id t, name t, description t, executor_type t, dependencies t, parameters t)"

section \<open>Literals\<close>

lemma lit_eq_iff [simp]: "lit a = lit b \<longleftrightarrow> a = b"
  by (simp add: lit_def inj_map_eq_map [OF inj_of_char])

lemma lit_eq_Nil_iff [simp]: "lit a = [] \<longleftrightarrow> a = []"
  by (simp add: lit_def)

lemma Nil_eq_lit_iff [simp]: "[] = lit a \<longleftrightarrow> a = []"
  by (simp add: lit_def)

section \<open>Properties of \<open>get_ready_tasks\<close>\<close>

lemma all_deps_completed_iff:
  "all_deps_completed ts t \<longleftrightarrow>
     (\<forall>d \<in> set (dependencies t). \<exists>u \<in> set ts. task_id u = d \<and> status u = lit ''completed'')"
  unfolding all_deps_completed_def
  by (cases "dependencies t") (simp_all add: list_all_iff list_ex_iff)

lemma get_ready_loop_filter:
  "get_ready_loop ts xs acc =
     acc @ filter (\<lambda>t. status t = lit ''pending'' \<and> all_deps_completed ts t) xs"
  by (induction xs arbitrary: acc) simp_all

text \<open>
  Claim C1. \<open>get_ready_tasks\<close> returns, in list order, exactly the tasks that are pending
  and whose every dependency id is the id of some task of the graph with status
  completed. So a pending task with no dependency is returned, and a task with a
  dependency id that no completed task carries (no task at all, or only tasks that are
  not completed) is not.
\<close>

theorem get_ready_tasks_exact:
  "get_ready_tasks T =
     filter (\<lambda>t. status t = lit ''pending'' \<and>
                 (\<forall>d \<in> set (dependencies t). \<exists>u \<in> set (tasks T).
                     task_id u = d \<and> status u = lit ''completed''))
            (tasks T)
   \<and> (\<forall>t \<in> set (tasks T). status t = lit ''pending'' \<and> dependencies t = []
         \<longrightarrow> t \<in> set (get_ready_tasks T))
   \<and> (\<forall>t d. d \<in> set (dependencies t) \<and>
         (\<forall>u \<in> set (tasks T). task_id u = d \<longrightarrow> status u \<noteq> lit ''completed'')
         \<longrightarrow> t \<notin> set (get_ready_tasks T))"
proof -
  have eq: "get_ready_tasks T =
     filter (\<lambda>t. status t = lit ''pending'' \<and>
                 (\<forall>d \<in> set (dependencies t). \<exists>u \<in> set (tasks T).
                     task_id u = d \<and> status u = lit ''completed''))
            (tasks T)"
    unfolding get_ready_tasks_def get_ready_loop_filter all_deps_completed_iff by simp
  have no_deps: "\<forall>t \<in> set (tasks T). status t = lit ''pending'' \<and> dependencies t = []
         \<longrightarrow> t \<in> set (get_ready_tasks T)"
    unfolding eq by simp
  have blocked: "\<forall>t d. d \<in> set (dependencies t) \<and>
         (\<forall>u \<in> set (tasks T). task_id u = d \<longrightarrow> status u \<noteq> lit ''completed'')
         \<longrightarrow> t \<notin> set (get_ready_tasks T)"
    unfolding eq by auto
  from eq no_deps blocked show ?thesis by blast
qed

theorem get_ready_tasks_exact_witness:
  "map task_id (get_ready_tasks ex1_tree) = [lit ''a'', lit ''d'']
   \<and> new_Task (lit ''a'') (lit ''A'') [] (lit ''data_collector'') [] []
       \<in> set (get_ready_tasks ex1_tree)
   \<and> new_Task (lit ''b'') (lit ''B'') [] (lit ''data_collector'') [lit ''a''] []
       \<notin> set (get_ready_tasks ex1_tree)
   \<and> new_Task (lit ''c'') (lit ''C'') [] (lit ''data_collector'') [lit ''ghost''] []
       \<notin> set (get_ready_tasks ex1_tree)"
  using get_ready_tasks_exact [of ex1_tree]
  by (simp add: ex1_tree_def new_Task_def Let_def)

section \<open>Properties of \<open>update_task_status\<close>\<close>

lemma update_loop_no_match:
  "\<forall>t \<in> set ts. task_id t \<noteq> tid \<Longrightarrow> update_loop ts tid st res = ts"
  by (induction ts) simp_all

lemma update_loop_first_match:
  "\<forall>u \<in> set pre. task_id u \<noteq> tid \<Longrightarrow> task_id t = tid \<Longrightarrow>
   update_loop (pre @ t # post) tid st res =
     pre @ t\<lparr>status := st, result := (if truthy res then res else result t)\<rparr> # post"
  by (induction pre) simp_all

lemma update_loop_idem:
  "update_loop (update_loop ts tid st res) tid st res = update_loop ts tid st res"
  by (induction ts) simp_all

lemma length_update_loop: "length (update_loop ts tid st res) = length ts"
  by (induction ts) simp_all

lemma topology_update_loop: "map topology (update_loop ts tid st res) = map topology ts"
  by (induction ts) (simp_all add: topology_def)

lemma result_update_loop_falsy:
  "\<not> truthy res \<Longrightarrow> map result (update_loop ts tid st res) = map result ts"
  by (induction ts) simp_all

lemma result_update_loop_kept:
  "i < length ts \<Longrightarrow> result (ts ! i) \<noteq> None \<Longrightarrow>
   result (update_loop ts tid st res ! i) \<noteq> None"
proof (induction ts arbitrary: i)
  case Nil
  then show ?case by simp
next
  case (Cons t ts)
  then show ?case by (cases i; cases res) auto
qed

lemma topology_run_task:
  "map topology (tasks (snd (run_task m s task))) = map topology (tasks (snd s))"
  by (cases s)
     (simp add: run_task_def update_task_status_def topology_update_loop Let_def
        split: prod.splits sum.splits)

lemma topology_run_ready_tasks:
  "map topology (tasks (snd (run_ready_tasks m s ready))) = map topology (tasks (snd s))"
  by (induction ready arbitrary: s) (simp_all add: topology_run_task)

lemma topology_execution_loop:
  assumes "execution_loop m s = Some s'"
  shows "map topology (tasks (snd s')) = map topology (tasks (snd s))"
proof (rule execution_loop.raw_induct
         [where P = "\<lambda>m s s'. map topology (tasks (snd s')) = map topology (tasks (snd s))",
          OF _ assms])
  fix loop m and s s' :: "'a \<times> TaskTree"
  assume IH: "\<And>m s y. loop m s = Some y \<Longrightarrow>
                 map topology (tasks (snd y)) = map topology (tasks (snd s))"
    and step: "(if get_ready_tasks (snd s) = [] then Some s
                else loop m (run_ready_tasks m s (get_ready_tasks (snd s)))) = Some s'"
  show "map topology (tasks (snd s')) = map topology (tasks (snd s))"
  proof (cases "get_ready_tasks (snd s) = []")
    case True
    with step show ?thesis by simp
  next
    case False
    with step have "loop m (run_ready_tasks m s (get_ready_tasks (snd s))) = Some s'" by simp
    from IH[OF this] show ?thesis by (simp add: topology_run_ready_tasks)
  qed
qed

text \<open>
  Claim C8. \<open>update_task_status\<close> is idempotent: a second call with the same arguments
  leaves the graph as the first call left it. When no task carries the id, the call
  returns the graph unchanged. The operation is a total function with no error result:
  no statement of the source's loop can raise.
\<close>

theorem update_task_status_idempotent:
  "update_task_status (update_task_status T tid st res) tid st res
     = update_task_status T tid st res
   \<and> ((\<forall>t \<in> set (tasks T). task_id t \<noteq> tid) \<longrightarrow> update_task_status T tid st res = T)"
  by (simp add: update_task_status_def update_loop_idem update_loop_no_match)

theorem update_task_status_idempotent_witness:
  "update_task_status
       (update_task_status ex1_tree (lit ''a'') (lit ''completed'') (Some (lit ''ok'')))
       (lit ''a'') (lit ''completed'') (Some (lit ''ok''))
     = update_task_status ex1_tree (lit ''a'') (lit ''completed'') (Some (lit ''ok''))
   \<and> update_task_status ex1_tree (lit ''zz'') (lit ''completed'') (Some (lit ''ok'')) = ex1_tree"
  using update_task_status_idempotent
          [of ex1_tree "lit ''a''" "lit ''completed''" "Some (lit ''ok'')"]
        update_task_status_idempotent
          [of ex1_tree "lit ''zz''" "lit ''completed''" "Some (lit ''ok'')"]
  by (simp add: ex1_tree_def new_Task_def Let_def)

text \<open>
  Claim C9. \<open>update_task_status\<close> keeps the number of tasks and every task's id, name,
  description, executor type, dependencies and parameters. When no task carries the id
  it changes nothing; otherwise it changes the first task that carries the id, and of
  that task only \<open>status\<close> and \<open>result\<close>, and every other task is as before. The
  scheduler changes the graph through this operation only, so one pass over the ready
  tasks and a whole run of the loop keep the topology too.
\<close>

theorem update_task_status_frame:
  "length (tasks (update_task_status T tid st res)) = length (tasks T)
   \<and> map topology (tasks (update_task_status T tid st res)) = map topology (tasks T)
   \<and> ((\<forall>t \<in> set (tasks T). task_id t \<noteq> tid) \<longrightarrow>
        tasks (update_task_status T tid st res) = tasks T)
   \<and> (\<forall>pre t post.
        tasks T = pre @ t # post \<and> task_id t = tid \<and> (\<forall>u \<in> set pre. task_id u \<noteq> tid) \<longrightarrow>
        tasks (update_task_status T tid st res) =
          pre @ t\<lparr>status := st, result := (if truthy res then res else result t)\<rparr> # post)
   \<and> map topology (tasks (snd (run_ready_tasks m s ready))) = map topology (tasks (snd s))
   \<and> (\<forall>s'. execution_loop m s = Some s' \<longrightarrow>
          map topology (tasks (snd s')) = map topology (tasks (snd s)))"
  by (auto simp: update_task_status_def length_update_loop topology_update_loop
        update_loop_no_match update_loop_first_match topology_run_ready_tasks
        topology_execution_loop)

theorem update_task_status_frame_witness:
  "map status (tasks (update_task_status ex1_tree (lit ''a'') (lit ''failed'') (Some (lit ''boom''))))
     = [lit ''completed'', lit ''failed'', lit ''pending'', lit ''pending'', lit ''pending'']
   \<and> map result (tasks (update_task_status ex1_tree (lit ''a'') (lit ''failed'') (Some (lit ''boom''))))
     = [None, Some (lit ''boom''), None, None, None]
   \<and> map topology (tasks (update_task_status ex1_tree (lit ''a'') (lit ''failed'') (Some (lit ''boom''))))
     = map topology (tasks ex1_tree)
   \<and> map_option (\<lambda>s. map status (tasks (snd s))) (execution_loop ex_manager ((), ex1_tree))
     = Some [lit ''completed'', lit ''completed'', lit ''completed'', lit ''pending'',
             lit ''completed'']
   \<and> map_option (\<lambda>s. map topology (tasks (snd s))) (execution_loop ex_manager ((), ex1_tree))
     = Some (map topology (tasks ex1_tree))"
  using update_task_status_frame
          [of ex1_tree "lit ''a''" "lit ''failed''" "Some (lit ''boom'')" ex_manager
              "((), ex1_tree)" "[]"]
  by (simp add: execution_loop.simps ex1_tree_def new_Task_def Let_def get_ready_tasks_def
        all_deps_completed_def run_task_def execute_task_def execute_def get_executor_def
        ex_manager_def ok_agent_def update_task_status_def topology_def)

text \<open>
  Claim C10. A call with a falsy result (\<open>None\<close> or the empty string) leaves every
  task's result as it was, while the first task that carries the id takes the new
  status. With any result argument, a result that was set stays set.
\<close>

theorem update_task_status_falsy_result:
  "(res = None \<or> res = Some [] \<longrightarrow>
      map result (tasks (update_task_status T tid st res)) = map result (tasks T))
   \<and> (\<forall>pre t post.
        (res = None \<or> res = Some []) \<and>
        tasks T = pre @ t # post \<and> task_id t = tid \<and> (\<forall>u \<in> set pre. task_id u \<noteq> tid) \<longrightarrow>
        tasks (update_task_status T tid st res) = pre @ t\<lparr>status := st\<rparr> # post)
   \<and> (\<forall>i < length (tasks T).
        result (tasks T ! i) \<noteq> None \<longrightarrow>
        result (tasks (update_task_status T tid st res) ! i) \<noteq> None)"
proof -
  have a: "res = None \<or> res = Some [] \<longrightarrow>
      map result (tasks (update_task_status T tid st res)) = map result (tasks T)"
    by (auto simp: update_task_status_def result_update_loop_falsy)
  have b: "\<forall>pre t post.
        (res = None \<or> res = Some []) \<and>
        tasks T = pre @ t # post \<and> task_id t = tid \<and> (\<forall>u \<in> set pre. task_id u \<noteq> tid) \<longrightarrow>
        tasks (update_task_status T tid st res) = pre @ t\<lparr>status := st\<rparr> # post"
    by (auto simp: update_task_status_def update_loop_first_match)
  have c: "\<forall>i < length (tasks T).
        result (tasks T ! i) \<noteq> None \<longrightarrow>
        result (tasks (update_task_status T tid st res) ! i) \<noteq> None"
    using result_update_loop_kept by (simp add: update_task_status_def)
  from a b c show ?thesis by blast
qed

theorem update_task_status_falsy_result_witness:
  "map result (tasks (update_task_status
       (update_task_status ex1_tree (lit ''a'') (lit ''completed'') (Some (lit ''ok'')))
       (lit ''a'') (lit ''failed'') (Some [])))
     = [None, Some (lit ''ok''), None, None, None]
   \<and> map status (tasks (update_task_status
       (update_task_status ex1_tree (lit ''a'') (lit ''completed'') (Some (lit ''ok'')))
       (lit ''a'') (lit ''failed'') (Some [])))
     = [lit ''completed'', lit ''failed'', lit ''pending'', lit ''pending'', lit ''pending'']
   \<and> map result (tasks (update_task_status ex1_tree (lit ''b'') (lit ''completed'') None))
     = [None, None, None, None, None]"
  using update_task_status_falsy_result
          [of "Some []"
              "update_task_status ex1_tree (lit ''a'') (lit ''completed'') (Some (lit ''ok''))"
              "lit ''a''" "lit ''failed''"]
        update_task_status_falsy_result [of None ex1_tree "lit ''b''" "lit ''completed''"]
  by (simp add: ex1_tree_def new_Task_def Let_def update_task_status_def)

section \<open>Properties of the planner\<close>

subsection \<open>The default tree\<close>

lemma default_tree_shape:
  "map id_and_deps (tasks (create_default_task_tree q)) =
     [(lit ''root'', []),
      (lit ''data_collection'', []),
      (lit ''technical_analysis'', [lit ''data_collection'']),
      (lit ''news_analysis'', []),
      (lit ''risk_assessment'', [lit ''data_collection'']),
      (lit ''report_generation'',
         [lit ''technical_analysis'', lit ''news_analysis'', lit ''risk_assessment''])]"
  by (simp add: create_default_task_tree_def new_Task_def id_and_deps_def Let_def)

lemma default_tree_root:
  "root_task (create_default_task_tree q) = hd (tasks (create_default_task_tree q))
   \<and> description (root_task (create_default_task_tree q)) = q"
  by (simp add: create_default_task_tree_def new_Task_def Let_def)

text \<open>
  Claim C4, as the code has it. \<open>create_task_tree\<close> always returns a graph: the parsed one,
  or the default tree when the generator raises, when the XML parser raises, or when the
  body of the parser fails in any other way. The default tree is built from the request
  alone. Its shape: the root; the data-collection task with no dependency; the technical
  and the risk task, each depending on data collection; the news task with no
  dependency; the report task depending on the technical, news and risk tasks.
\<close>

theorem create_task_tree_fallback:
  "(create_task_tree chain fromstring uuid4 q = create_default_task_tree q
      \<or> (\<exists>txt T. chain q = Inr txt \<and> parse_task_tree_body fromstring uuid4 txt q = Inr T
                  \<and> create_task_tree chain fromstring uuid4 q = T))
   \<and> (\<forall>e. chain q = Inl e \<longrightarrow>
          create_task_tree chain fromstring uuid4 q = create_default_task_tree q)
   \<and> (\<forall>txt. chain q = Inr txt \<and> fromstring (clean_xml_text txt) = None \<longrightarrow>
          create_task_tree chain fromstring uuid4 q = create_default_task_tree q)
   \<and> (\<forall>txt e. chain q = Inr txt \<and> parse_task_tree_body fromstring uuid4 txt q = Inl e \<longrightarrow>
          create_task_tree chain fromstring uuid4 q = create_default_task_tree q)
   \<and> map id_and_deps (tasks (create_default_task_tree q)) =
       [(lit ''root'', []),
        (lit ''data_collection'', []),
        (lit ''technical_analysis'', [lit ''data_collection'']),
        (lit ''news_analysis'', []),
        (lit ''risk_assessment'', [lit ''data_collection'']),
        (lit ''report_generation'',
           [lit ''technical_analysis'', lit ''news_analysis'', lit ''risk_assessment''])]
   \<and> root_task (create_default_task_tree q) = hd (tasks (create_default_task_tree q))
   \<and> description (root_task (create_default_task_tree q)) = q"
proof -
  have total: "create_task_tree chain fromstring uuid4 q = create_default_task_tree q
      \<or> (\<exists>txt T. chain q = Inr txt \<and> parse_task_tree_body fromstring uuid4 txt q = Inr T
                  \<and> create_task_tree chain fromstring uuid4 q = T)"
    by (auto simp: create_task_tree_def parse_task_tree_xml_def split: sum.splits)
  have raised: "\<forall>e. chain q = Inl e \<longrightarrow>
          create_task_tree chain fromstring uuid4 q = create_default_task_tree q"
    by (simp add: create_task_tree_def)
  have body: "\<forall>txt e. chain q = Inr txt \<and> parse_task_tree_body fromstring uuid4 txt q = Inl e
          \<longrightarrow> create_task_tree chain fromstring uuid4 q = create_default_task_tree q"
    by (simp add: create_task_tree_def parse_task_tree_xml_def)
  have xml: "\<forall>txt. chain q = Inr txt \<and> fromstring (clean_xml_text txt) = None \<longrightarrow>
          create_task_tree chain fromstring uuid4 q = create_default_task_tree q"
    by (simp add: create_task_tree_def parse_task_tree_xml_def parse_task_tree_body_def)
  from total raised xml body default_tree_shape [of q] default_tree_root [of q]
  show ?thesis by blast
qed

theorem create_task_tree_fallback_witness:
  "create_task_tree garbage_chain no_xml uuid_ex (lit ''analyze X'')
     = create_default_task_tree (lit ''analyze X'')
   \<and> create_task_tree failing_chain no_xml uuid_ex (lit ''analyze X'')
     = create_default_task_tree (lit ''analyze X'')
   \<and> map id_and_deps
         (tasks (create_task_tree garbage_chain no_xml uuid_ex (lit ''analyze X''))) =
       [(lit ''root'', []),
        (lit ''data_collection'', []),
        (lit ''technical_analysis'', [lit ''data_collection'']),
        (lit ''news_analysis'', []),
        (lit ''risk_assessment'', [lit ''data_collection'']),
        (lit ''report_generation'',
           [lit ''technical_analysis'', lit ''news_analysis'', lit ''risk_assessment''])]"
  using create_task_tree_fallback [of garbage_chain no_xml uuid_ex "lit ''analyze X''"]
        create_task_tree_fallback [of failing_chain no_xml uuid_ex "lit ''analyze X''"]
  by (simp add: garbage_chain_def failing_chain_def no_xml_def)

text \<open>
  Against claim C4 as stated: in the fallback graph returned for an unparseable plan,
  the fourth task is the news task, and it does not depend on the data-collection task
  (it has no dependency at all).
\<close>

theorem fallback_news_counterexample:
  "task_id (tasks (create_task_tree garbage_chain no_xml uuid_ex (lit ''analyze X'')) ! 3)
     = lit ''news_analysis''
   \<and> lit ''data_collection''
       \<notin> set (dependencies
                (tasks (create_task_tree garbage_chain no_xml uuid_ex (lit ''analyze X'')) ! 3))
   \<and> dependencies (tasks (create_task_tree garbage_chain no_xml uuid_ex (lit ''analyze X'')) ! 3)
     = []"
  by (simp add: create_task_tree_def parse_task_tree_xml_def parse_task_tree_body_def
        garbage_chain_def no_xml_def create_default_task_tree_def new_Task_def Let_def)

subsection \<open>Parsing a plan\<close>



lemma parse_deps_none: "parse_deps (plan_task i None) = []"
  by (simp add: parse_deps_def plan_task_def find_elem_def leaf_def)

lemma field_text_plan_task:
  "field_text (plan_task i deps) (lit ''id'') = Inr (Some i)"
  "field_text (plan_task i deps) (lit ''name'') = Inr (Some (lit ''step''))"
  "field_text (plan_task i deps) (lit ''description'') = Inr (Some (lit ''work''))"
  "field_text (plan_task i deps) (lit ''executor_type'') = Inr (Some (lit ''data_collector''))"
  by (simp_all add: field_text_def find_elem_def plan_task_def leaf_def)

lemma parse_params_plan_task:
  "parse_params (plan_task i deps) = [(lit ''symbol'', PyStr (lit ''X''))]"
  by (simp add: parse_params_def find_elem_def plan_task_def leaf_def text_value_def)

lemma parse_task_plan_task:
  "i \<noteq> [] \<Longrightarrow>
   parse_task uuid4 n (plan_task i deps) =
     Inr (new_Task i (lit ''step'') (lit ''work'') (lit ''data_collector'')
            (parse_deps (plan_task i deps)) [(lit ''symbol'', PyStr (lit ''X''))], n)"
  by (simp add: parse_task_def Let_def field_text_plan_task parse_params_plan_task
        or_default_def)








lemma parse_deps_no_text:
  "find_elem e (lit ''dependencies'') = Some d \<Longrightarrow> elem_text d = None \<Longrightarrow> parse_deps e = []"
  by (simp add: parse_deps_def)
















subsection \<open>Subtasks with missing fields\<close>

lemma parse_task_missing_field:
  assumes "f \<in> {lit ''id'', lit ''name'', lit ''description'', lit ''executor_type''}"
    and "find_elem e f = None"
  shows "parse_task fresh n e = Inl AttributeError"
  using assms
  by (auto simp: parse_task_def Let_def field_text_def split: option.splits sum.splits)

lemma parse_tasks_fails:
  assumes "e \<in> set es" and "\<And>n. \<exists>x. parse_task fresh n e = Inl x"
  shows "\<exists>x. parse_tasks fresh n es acc = Inl x"
  using assms(1)
proof (induction es arbitrary: n acc)
  case Nil
  then show ?case by simp
next
  case (Cons d es)
  show ?case
  proof (cases "parse_task fresh n d")
    case (Inl x)
    then show ?thesis by simp
  next
    case (Inr r)
    show ?thesis
    proof (cases "e = d")
      case True
      with assms(2) [of n] Inr show ?thesis by simp
    next
      case False
      with Cons.prems have "e \<in> set es" by simp
      from Cons.IH [OF this] Inr show ?thesis by (cases r) simp
    qed
  qed
qed

lemma one_task_plan_tasks:
  "find_elem (one_task_plan e) (lit ''tasks'') =
     Some (Element (lit ''tasks'') None [plan_task (lit ''A'') None, e])"
  by (simp add: find_elem_def one_task_plan_def)

lemma findall_tasks:
  "elem_tag e = lit ''task'' \<Longrightarrow>
   findall (Element (lit ''tasks'') None [plan_task (lit ''A'') None, e]) (lit ''task'')
     = [plan_task (lit ''A'') None, e]"
  by (simp add: findall_def plan_task_def)

lemma parse_task_empty_fields:
  "parse_task fresh n task_with_empty_fields =
     Inr (new_Task (fresh n) default_task_name default_task_description (lit ''data_collector'')
            [] [], Suc n)"
  by (simp add: parse_task_def Let_def field_text_def find_elem_def task_with_empty_fields_def
        leaf_def or_default_def parse_deps_def parse_params_def)

lemma empty_fields_kept:
  assumes "fromstring (clean_xml_text plan_text) = Some (one_task_plan task_with_empty_fields)"
  shows "tasks (parse_task_tree_xml fromstring fresh plan_text q) =
     [new_Task (lit ''root'') investment_analysis q (lit ''coordinator'') [] [],
      new_Task (lit ''A'') (lit ''step'') (lit ''work'') (lit ''data_collector'') []
        [(lit ''symbol'', PyStr (lit ''X''))],
      new_Task (fresh 0) default_task_name default_task_description (lit ''data_collector'')
        [] []]"
proof -
  have tg: "elem_tag task_with_empty_fields = lit ''task''"
    by (simp add: task_with_empty_fields_def)
  show ?thesis
    using assms
    by (simp add: parse_task_tree_xml_def parse_task_tree_body_def Let_def one_task_plan_tasks
          findall_tasks [OF tg] parse_task_plan_task parse_task_empty_fields parse_deps_none)
qed

text \<open>
  Claim C7, on the code. When a subtask of the plan has no \<open>id\<close>, \<open>name\<close>,
  \<open>description\<close> or \<open>executor_type\<close> element, reading the text of the absent element
  raises inside the parser, and the parser returns the default tree: the whole plan is
  dropped, the well-formed subtasks with it. (A field whose element is there with no
  text does get its default, see \<open>empty_fields_kept\<close>.)
\<close>

theorem missing_field_discards_plan:
  assumes "fromstring (clean_xml_text plan_text) = Some root"
    and "find_elem root (lit ''tasks'') = Some tasks_elem"
    and "e \<in> set (findall tasks_elem (lit ''task''))"
    and "f \<in> {lit ''id'', lit ''name'', lit ''description'', lit ''executor_type''}"
    and "find_elem e f = None"
  shows "parse_task_tree_xml fromstring fresh plan_text q = create_default_task_tree q"
proof -
  have "\<And>n. \<exists>x. parse_task fresh n e = Inl x"
    using parse_task_missing_field [OF assms(4,5)] by blast
  from parse_tasks_fails [OF assms(3) this]
  obtain x where "parse_tasks fresh 0 (findall tasks_elem (lit ''task''))
      [new_Task (lit ''root'') investment_analysis q (lit ''coordinator'') [] []] = Inl x"
    by blast
  with assms(1,2) show ?thesis
    by (simp add: parse_task_tree_xml_def parse_task_tree_body_def Let_def)
qed

theorem missing_field_discards_plan_witness:
  "map task_id
     (tasks (parse_task_tree_xml without_id_fromstring uuid_ex (lit ''plan'') (lit ''analyze X'')))
     = [lit ''root'', lit ''data_collection'', lit ''technical_analysis'', lit ''news_analysis'',
        lit ''risk_assessment'', lit ''report_generation'']
   \<and> map task_id
     (tasks (parse_task_tree_xml empty_fields_fromstring uuid_ex (lit ''plan'') (lit ''analyze X'')))
     = [lit ''root'', lit ''A'', uuid_ex 0]"
proof -
  have tg: "elem_tag task_without_id = lit ''task''"
    by (simp add: task_without_id_def)
  have a: "without_id_fromstring (clean_xml_text (lit ''plan'')) = Some (one_task_plan task_without_id)"
    by (simp add: without_id_fromstring_def)
  have b: "task_without_id \<in> set (findall (Element (lit ''tasks'') None
             [plan_task (lit ''A'') None, task_without_id]) (lit ''task''))"
    by (simp add: findall_tasks [OF tg])
  have c: "lit ''id'' \<in> {lit ''id'', lit ''name'', lit ''description'', lit ''executor_type''}"
    by simp
  have d: "find_elem task_without_id (lit ''id'') = None"
    by (simp add: find_elem_def task_without_id_def leaf_def)
  have e: "empty_fields_fromstring (clean_xml_text (lit ''plan''))
             = Some (one_task_plan task_with_empty_fields)"
    by (simp add: empty_fields_fromstring_def)
  show ?thesis
    using missing_field_discards_plan
            [where fromstring = without_id_fromstring and fresh = uuid_ex
               and q = "lit ''analyze X''", OF a one_task_plan_tasks b c d]
          empty_fields_kept
            [where fromstring = empty_fields_fromstring and fresh = uuid_ex
               and q = "lit ''analyze X''", OF e]
          default_tree_shape [of "lit ''analyze X''"]
    by (simp add: new_Task_def id_and_deps_def create_default_task_tree_def Let_def)
qed

section \<open>Properties of the executors and the scheduler\<close>

lemma execute_returns: "\<exists>r w'. execute ex w task ctx = (Inr r, w')"
  by (cases "agent ex w (name task) (description task) (parameters task)")
     (auto simp: execute_def split: sum.splits)

lemma run_task_cases:
  "\<exists>res. snd (run_task m (w, T) task)
      = update_task_status T (task_id task) (lit ''completed'') res"
proof (cases "task_id task = lit ''root''")
  case True
  then show ?thesis by (auto simp: run_task_def)
next
  case False
  obtain r w' where "execute_task m w task
      (filter (\<lambda>t. status t = lit ''completed'') (tasks T)) = (Inr r, w')"
    using execute_returns [of "get_executor m (executor_type task)" w task
        "filter (\<lambda>t. status t = lit ''completed'') (tasks T)"]
    unfolding execute_task_def by auto
  with False show ?thesis by (auto simp: run_task_def Let_def)
qed

lemma ids_update_loop: "map task_id (update_loop ts tid st res) = map task_id ts"
  by (induction ts) simp_all

lemma update_loop_append_hit:
  "tid \<in> task_id ` set pre \<Longrightarrow>
   update_loop (pre @ rest) tid st res = update_loop pre tid st res @ rest"
  by (induction pre) auto

lemma update_loop_append_miss:
  "tid \<notin> task_id ` set pre \<Longrightarrow>
   update_loop (pre @ rest) tid st res = pre @ update_loop rest tid st res"
  by (induction pre) auto

lemma shadowed_ready_update:
  assumes "shadowed_ready ts"
  shows "shadowed_ready (update_loop ts tid st res)"
proof -
  from assms obtain pre t post where
    ts: "ts = pre @ t # post" and p: "status t = lit ''pending''" and d: "dependencies t = []"
    and sh: "task_id t \<in> task_id ` set pre"
    unfolding shadowed_ready_def by blast
  show ?thesis
  proof (cases "tid \<in> task_id ` set pre")
    case True
    have "update_loop ts tid st res = update_loop pre tid st res @ t # post"
      using update_loop_append_hit [OF True] ts by simp
    moreover have "task_id t \<in> task_id ` set (update_loop pre tid st res)"
      using sh ids_update_loop [of pre tid st res] by (metis list.set_map)
    ultimately show ?thesis
      unfolding shadowed_ready_def using p d by blast
  next
    case False
    with sh have ne: "task_id t \<noteq> tid" by auto
    have "update_loop ts tid st res = pre @ t # update_loop post tid st res"
      using update_loop_append_miss [OF False] ts ne by simp
    then show ?thesis
      unfolding shadowed_ready_def using p d sh by blast
  qed
qed

lemma shadowed_ready_run_task:
  "shadowed_ready (tasks (snd s)) \<Longrightarrow> shadowed_ready (tasks (snd (run_task m s task)))"
proof -
  assume a: "shadowed_ready (tasks (snd s))"
  obtain w T where s: "s = (w, T)" by (cases s)
  obtain res where "snd (run_task m (w, T) task)
      = update_task_status T (task_id task) (lit ''completed'') res"
    using run_task_cases [of m w T task] by auto
  with a s show ?thesis
    by (simp add: update_task_status_def shadowed_ready_update)
qed

lemma shadowed_ready_run_ready_tasks:
  "shadowed_ready (tasks (snd s)) \<Longrightarrow>
   shadowed_ready (tasks (snd (run_ready_tasks m s ready)))"
  by (induction ready arbitrary: s) (simp_all add: shadowed_ready_run_task)

lemma get_ready_tasks_filter:
  "get_ready_tasks T =
     filter (\<lambda>t. status t = lit ''pending'' \<and> all_deps_completed (tasks T) t) (tasks T)"
  by (simp add: get_ready_tasks_def get_ready_loop_filter)

lemma shadowed_ready_is_ready:
  "shadowed_ready (tasks T) \<Longrightarrow> get_ready_tasks T \<noteq> []"
  unfolding shadowed_ready_def get_ready_tasks_filter
  by (auto simp: filter_empty_conv all_deps_completed_def)

lemma shadowed_ready_never_returns:
  assumes "execution_loop m s = Some s'"
  shows "\<not> shadowed_ready (tasks (snd s))"
proof (rule execution_loop.raw_induct
         [where P = "\<lambda>m s s'. \<not> shadowed_ready (tasks (snd s))", OF _ assms])
  fix loop m and s s' :: "'a \<times> TaskTree"
  assume IH: "\<And>m s y. loop m s = Some y \<Longrightarrow> \<not> shadowed_ready (tasks (snd s))"
    and step: "(if get_ready_tasks (snd s) = [] then Some s
                else loop m (run_ready_tasks m s (get_ready_tasks (snd s)))) = Some s'"
  show "\<not> shadowed_ready (tasks (snd s))"
  proof
    assume sh: "shadowed_ready (tasks (snd s))"
    then have "get_ready_tasks (snd s) \<noteq> []" by (rule shadowed_ready_is_ready)
    with step have "loop m (run_ready_tasks m s (get_ready_tasks (snd s))) = Some s'" by simp
    from IH [OF this] shadowed_ready_run_ready_tasks [OF sh] show False by blast
  qed
qed

text \<open>
  Claim C2, on the code. When a pending task with no dependency stands behind a task with
  the same id, the scheduler's loop never returns, whatever the executors answer: the
  task is ready in every pass, and every pass updates the first task with that id, never
  this one. (With pairwise distinct ids the loop does return, lemma
  \<open>execution_loop_terminates_distinct\<close>, and it returns only when no task is ready, lemma
  \<open>execution_loop_exit\<close>.)
\<close>

theorem duplicate_id_never_terminates:
  assumes "tasks T = pre @ t # post"
    and "status t = lit ''pending''" and "dependencies t = []"
    and "task_id t \<in> task_id ` set pre"
  shows "execution_loop m (w, T) = None"
proof -
  have "shadowed_ready (tasks (snd (w, T)))"
    unfolding shadowed_ready_def using assms by auto
  with shadowed_ready_never_returns [of m "(w, T)"] show ?thesis
    by (cases "execution_loop m (w, T)") auto
qed

lemma dup_plan_tasks:
  "tasks (parse_task_tree_xml dup_fromstring uuid_ex (lit ''plan'') (lit ''analyze X'')) =
     [new_Task (lit ''root'') investment_analysis (lit ''analyze X'') (lit ''coordinator'') [] [],
      new_Task (lit ''A'') (lit ''step'') (lit ''work'') (lit ''data_collector'') []
        [(lit ''symbol'', PyStr (lit ''X''))],
      new_Task (lit ''A'') (lit ''step'') (lit ''work'') (lit ''data_collector'') []
        [(lit ''symbol'', PyStr (lit ''X''))]]"
proof -
  have tg: "elem_tag (plan_task (lit ''A'') None) = lit ''task''"
    by (simp add: plan_task_def)
  show ?thesis
    by (simp add: parse_task_tree_xml_def parse_task_tree_body_def Let_def dup_fromstring_def
          one_task_plan_tasks findall_tasks [OF tg] parse_task_plan_task parse_deps_none)
qed

theorem duplicate_id_never_terminates_witness:
  "execution_loop ex_manager
     ((), parse_task_tree_xml dup_fromstring uuid_ex (lit ''plan'') (lit ''analyze X'')) = None"
proof (rule duplicate_id_never_terminates)
  show "tasks (parse_task_tree_xml dup_fromstring uuid_ex (lit ''plan'') (lit ''analyze X'')) =
     [new_Task (lit ''root'') investment_analysis (lit ''analyze X'') (lit ''coordinator'') [] [],
      new_Task (lit ''A'') (lit ''step'') (lit ''work'') (lit ''data_collector'') []
        [(lit ''symbol'', PyStr (lit ''X''))]]
     @ new_Task (lit ''A'') (lit ''step'') (lit ''work'') (lit ''data_collector'') []
        [(lit ''symbol'', PyStr (lit ''X''))] # []"
    by (simp add: dup_plan_tasks)
qed (simp_all add: new_Task_def)


lemma count_pending_update_le:
  "st \<noteq> lit ''pending'' \<Longrightarrow> count_pending (update_loop ts tid st res) \<le> count_pending ts"
  by (induction ts) (auto simp: count_pending_def)

lemma count_pending_update_less:
  assumes "st \<noteq> lit ''pending''" and "distinct (map task_id ts)"
    and "r \<in> set ts" and "status r = lit ''pending''"
  shows "count_pending (update_loop ts (task_id r) st res) < count_pending ts"
  using assms(2,3)
proof (induction ts)
  case Nil
  then show ?case by simp
next
  case (Cons t ts)
  show ?case
  proof (cases "t = r")
    case True
    with assms(1,4) show ?thesis by (simp add: count_pending_def)
  next
    case False
    with Cons.prems have r: "r \<in> set ts" by simp
    with Cons.prems have "task_id t \<noteq> task_id r" by auto
    with Cons.IH r Cons.prems show ?thesis by (simp add: count_pending_def)
  qed
qed

lemma ids_run_task: "map task_id (tasks (snd (run_task m s task))) = map task_id (tasks (snd s))"
proof -
  obtain w T where s: "s = (w, T)" by (cases s)
  obtain res where "snd (run_task m (w, T) task)
      = update_task_status T (task_id task) (lit ''completed'') res"
    using run_task_cases [of m w T task] by auto
  with s show ?thesis by (simp add: update_task_status_def ids_update_loop)
qed

lemma count_pending_run_task_le:
  "count_pending (tasks (snd (run_task m s task))) \<le> count_pending (tasks (snd s))"
proof -
  obtain w T where s: "s = (w, T)" by (cases s)
  obtain res where "snd (run_task m (w, T) task)
      = update_task_status T (task_id task) (lit ''completed'') res"
    using run_task_cases [of m w T task] by auto
  with s show ?thesis by (simp add: update_task_status_def count_pending_update_le)
qed

lemma count_pending_run_task_less:
  assumes "distinct (map task_id (tasks (snd s)))"
    and "r \<in> set (tasks (snd s))" and "status r = lit ''pending''"
  shows "count_pending (tasks (snd (run_task m s r))) < count_pending (tasks (snd s))"
proof -
  obtain w T where s: "s = (w, T)" by (cases s)
  obtain res where "snd (run_task m (w, T) r)
      = update_task_status T (task_id r) (lit ''completed'') res"
    using run_task_cases [of m w T r] by auto
  with s assms show ?thesis by (simp add: update_task_status_def count_pending_update_less)
qed

lemma count_pending_run_ready_tasks_le:
  "count_pending (tasks (snd (run_ready_tasks m s ready))) \<le> count_pending (tasks (snd s))"
proof (induction ready arbitrary: s)
  case Nil
  then show ?case by simp
next
  case (Cons r ready)
  have "count_pending (tasks (snd (run_ready_tasks m (run_task m s r) ready)))
      \<le> count_pending (tasks (snd (run_task m s r)))"
    by (rule Cons.IH)
  also have "\<dots> \<le> count_pending (tasks (snd s))"
    by (rule count_pending_run_task_le)
  finally show ?case by simp
qed

lemma ids_run_ready_tasks:
  "map task_id (tasks (snd (run_ready_tasks m s ready))) = map task_id (tasks (snd s))"
  by (induction ready arbitrary: s) (simp_all add: ids_run_task)

lemma count_pending_batch_less:
  assumes "distinct (map task_id (tasks (snd s)))" and "get_ready_tasks (snd s) \<noteq> []"
  shows "count_pending (tasks (snd (run_ready_tasks m s (get_ready_tasks (snd s)))))
       < count_pending (tasks (snd s))"
proof -
  obtain r rest where rd: "get_ready_tasks (snd s) = r # rest"
    using assms(2) by (cases "get_ready_tasks (snd s)") auto
  then have "r \<in> set (get_ready_tasks (snd s))" by simp
  then have r: "r \<in> set (tasks (snd s))" "status r = lit ''pending''"
    by (simp_all add: get_ready_tasks_filter)
  have "count_pending (tasks (snd (run_ready_tasks m (run_task m s r) rest)))
      \<le> count_pending (tasks (snd (run_task m s r)))"
    by (rule count_pending_run_ready_tasks_le)
  also have "\<dots> < count_pending (tasks (snd s))"
    by (rule count_pending_run_task_less [OF assms(1) r])
  finally show ?thesis by (simp add: rd)
qed

lemma execution_loop_terminates_distinct:
  "distinct (map task_id (tasks (snd s))) \<Longrightarrow> \<exists>s'. execution_loop m s = Some s'"
proof (induction "count_pending (tasks (snd s))" arbitrary: s rule: less_induct)
  case less
  show ?case
  proof (cases "get_ready_tasks (snd s) = []")
    case True
    then show ?thesis by (subst execution_loop.simps) simp
  next
    case False
    let ?s = "run_ready_tasks m s (get_ready_tasks (snd s))"
    have "count_pending (tasks (snd ?s)) < count_pending (tasks (snd s))"
      by (rule count_pending_batch_less [OF less.prems False])
    moreover have "distinct (map task_id (tasks (snd ?s)))"
      using less.prems by (simp add: ids_run_ready_tasks)
    ultimately have "\<exists>s'. execution_loop m ?s = Some s'" by (rule less.hyps)
    with False show ?thesis by (subst execution_loop.simps) simp
  qed
qed

lemma execution_loop_exit:
  assumes "execution_loop m s = Some s'"
  shows "get_ready_tasks (snd s') = []"
proof (rule execution_loop.raw_induct
         [where P = "\<lambda>m s s'. get_ready_tasks (snd s') = []", OF _ assms])
  fix loop m and s s' :: "'a \<times> TaskTree"
  assume IH: "\<And>m s y. loop m s = Some y \<Longrightarrow> get_ready_tasks (snd y) = []"
    and step: "(if get_ready_tasks (snd s) = [] then Some s
                else loop m (run_ready_tasks m s (get_ready_tasks (snd s)))) = Some s'"
  show "get_ready_tasks (snd s') = []"
  proof (cases "get_ready_tasks (snd s) = []")
    case True
    with step show ?thesis by auto
  next
    case False
    with step have "loop m (run_ready_tasks m s (get_ready_tasks (snd s))) = Some s'" by simp
    from IH [OF this] show ?thesis .
  qed
qed

text \<open>
  Claim C3, on the code. When the agent of a task's executor raises, \<open>execute\<close> catches
  the exception and returns the failure text, so the scheduler's step marks the task
  completed with that text as its result. No step of the scheduler marks a task failed:
  every step sets the status of the first task with the id to completed.
\<close>

theorem raising_agent_marks_completed:
  "(\<forall>e w'. task_id task \<noteq> lit ''root'' \<and>
       agent (get_executor m (executor_type task)) w
         (name task) (description task) (parameters task) = (Inl e, w') \<longrightarrow>
       run_task m (w, T) task =
         (w', update_task_status T (task_id task) (lit ''completed'')
                (Some (execution_failed @ e))))
   \<and> (\<exists>res. snd (run_task m (w, T) task) =
          update_task_status T (task_id task) (lit ''completed'') res)"
proof -
  have a: "\<forall>e w'. task_id task \<noteq> lit ''root'' \<and>
       agent (get_executor m (executor_type task)) w
         (name task) (description task) (parameters task) = (Inl e, w') \<longrightarrow>
       run_task m (w, T) task =
         (w', update_task_status T (task_id task) (lit ''completed'')
                (Some (execution_failed @ e)))"
    by (simp add: run_task_def execute_task_def execute_def Let_def)
  from a run_task_cases [of m w T task] show ?thesis by blast
qed

theorem raising_agent_marks_completed_witness:
  "map_option (\<lambda>s. map (\<lambda>t. (task_id t, status t, result t)) (tasks (snd s)))
     (execution_loop ex_manager ((), failing_step_tree))
   = Some [(lit ''root'', lit ''completed'', None),
           (lit ''ta'', lit ''completed'', Some (execution_failed @ lit ''boom'')),
           (lit ''rep'', lit ''completed'', Some (lit ''ok''))]"
  using raising_agent_marks_completed
          [of "tasks failing_step_tree ! 1" ex_manager "()" failing_step_tree]
  by (simp add: execution_loop.simps failing_step_tree_def new_Task_def Let_def
        get_ready_tasks_def all_deps_completed_def run_task_def execute_task_def execute_def
        get_executor_def ex_manager_def ok_agent_def raising_agent_def update_task_status_def)

section \<open>Status and result in reachable graphs\<close>

lemma parse_task_fresh:
  "parse_task fresh n e = Inr (t, n') \<Longrightarrow> status t = lit ''pending'' \<and> result t = None"
  by (auto simp: parse_task_def Let_def new_Task_def split: sum.splits)

lemma parse_tasks_fresh:
  "parse_tasks fresh n es acc = Inr ts \<Longrightarrow>
   list_all (\<lambda>t. status t = lit ''pending'' \<and> result t = None) acc \<Longrightarrow>
   list_all (\<lambda>t. status t = lit ''pending'' \<and> result t = None) ts"
proof (induction es arbitrary: n acc)
  case Nil
  then show ?case by simp
next
  case (Cons e es)
  then show ?case
    by (auto split: sum.splits dest: parse_task_fresh)
qed

lemma create_task_tree_fresh:
  "list_all (\<lambda>t. status t = lit ''pending'' \<and> result t = None)
     (tasks (create_task_tree chain fromstring fresh q))"
proof -
  have d: "list_all (\<lambda>t. status t = lit ''pending'' \<and> result t = None)
     (tasks (create_default_task_tree q))"
    by (simp add: create_default_task_tree_def new_Task_def Let_def)
  have r: "list_all (\<lambda>t. status t = lit ''pending'' \<and> result t = None)
     [new_Task (lit ''root'') investment_analysis q (lit ''coordinator'') [] []]"
    by (simp add: new_Task_def)
  have b: "parse_task_tree_body fromstring fresh x q = Inr T \<Longrightarrow>
     list_all (\<lambda>t. status t = lit ''pending'' \<and> result t = None) (tasks T)" for x T
    using r
    by (auto simp: parse_task_tree_body_def Let_def
          split: option.splits sum.splits dest: parse_tasks_fresh)
  show ?thesis
    using d b
    by (auto simp: create_task_tree_def parse_task_tree_xml_def split: sum.splits)
qed

lemma update_loop_keeps_ok:
  assumes "st = lit ''completed'' \<or> st = lit ''failed''"
    and "list_all status_result_ok ts"
  shows "list_all status_result_ok (update_loop ts tid st res)"
  using assms
  by (induction ts) (auto simp: status_result_ok_def)

lemma reachable_ok:
  "reachable m T \<Longrightarrow> list_all status_result_ok (tasks T)"
proof (induction rule: reachable.induct)
  case (planned chain fromstring uuid4 q)
  have "list_all (\<lambda>t. status t = lit ''pending'' \<and> result t = None)
     (tasks (create_task_tree chain fromstring uuid4 q))"
    by (rule create_task_tree_fresh)
  then show ?case
    by (auto simp: list_all_iff status_result_ok_def)
next
  case (scheduled T w task)
  obtain res where "snd (run_task m (w, T) task)
      = update_task_status T (task_id task) (lit ''completed'') res"
    using run_task_cases [of m w T task] by auto
  with scheduled.IH show ?case
    by (simp add: update_task_status_def update_loop_keeps_ok)
qed

lemma reachable_fallback_after_root: "reachable ex_manager fallback_after_root"
  unfolding fallback_after_root_def fallback_tree_def
  by (intro reachable.intros)

lemma reachable_fallback_after_data: "reachable ex_manager fallback_after_data"
  unfolding fallback_after_data_def
  by (intro reachable.intros reachable_fallback_after_root)

lemma fallback_tree_tasks:
  "tasks fallback_tree = tasks (create_default_task_tree (lit ''analyze X''))"
  by (simp add: fallback_tree_def create_task_tree_def garbage_chain_def no_xml_def
        parse_task_tree_xml_def parse_task_tree_body_def)

lemma fallback_after_data_view:
  "map (\<lambda>t. (task_id t, status t, result t)) (tasks fallback_after_data) =
     [(lit ''root'', lit ''completed'', None),
      (lit ''data_collection'', lit ''completed'', Some (lit ''ok'')),
      (lit ''technical_analysis'', lit ''pending'', None),
      (lit ''news_analysis'', lit ''pending'', None),
      (lit ''risk_assessment'', lit ''pending'', None),
      (lit ''report_generation'', lit ''pending'', None)]"
  by (simp add: fallback_after_data_def fallback_after_root_def fallback_tree_tasks
        create_default_task_tree_def new_Task_def Let_def run_task_def update_task_status_def
        execute_task_def execute_def get_executor_def ex_manager_def ok_agent_def)

lemma fallback_after_root_view:
  "map (\<lambda>t. (task_id t, status t, result t)) (tasks fallback_after_root) =
     [(lit ''root'', lit ''completed'', None),
      (lit ''data_collection'', lit ''pending'', None),
      (lit ''technical_analysis'', lit ''pending'', None),
      (lit ''news_analysis'', lit ''pending'', None),
      (lit ''risk_assessment'', lit ''pending'', None),
      (lit ''report_generation'', lit ''pending'', None)]"
  by (simp add: fallback_after_root_def fallback_tree_tasks
        create_default_task_tree_def new_Task_def Let_def run_task_def update_task_status_def)

text \<open>
  Claim C5, as the code has it. In every graph reachable from the planner by steps of
  the scheduler, every task is pending, completed or failed; a task with a result is
  completed or failed; a pending task has no result.
\<close>

theorem result_only_when_settled:
  assumes "reachable m T" and "t \<in> set (tasks T)"
  shows "(status t = lit ''pending'' \<or> status t = lit ''completed'' \<or> status t = lit ''failed'')
       \<and> (result t \<noteq> None \<longrightarrow> status t = lit ''completed'' \<or> status t = lit ''failed'')
       \<and> (status t = lit ''pending'' \<longrightarrow> result t = None)"
  using reachable_ok [OF assms(1)] assms(2)
  by (auto simp: list_all_iff status_result_ok_def)

theorem result_only_when_settled_witness:
  "reachable ex_manager fallback_after_data
   \<and> tasks fallback_after_data ! 1 \<in> set (tasks fallback_after_data)
   \<and> result (tasks fallback_after_data ! 1) = Some (lit ''ok'')
   \<and> status (tasks fallback_after_data ! 1) = lit ''completed''"
proof -
  have len: "length (tasks fallback_after_data) = 6"
    using arg_cong [OF fallback_after_data_view, of length] by simp
  then have mem: "tasks fallback_after_data ! 1 \<in> set (tasks fallback_after_data)"
    by simp
  have "map (\<lambda>t. (task_id t, status t, result t)) (tasks fallback_after_data) ! 1
      = (lit ''data_collection'', lit ''completed'', Some (lit ''ok''))"
    by (simp add: fallback_after_data_view)
  with len have res: "result (tasks fallback_after_data ! 1) = Some (lit ''ok'')"
    by simp
  from result_only_when_settled [OF reachable_fallback_after_data mem] res
  have "status (tasks fallback_after_data ! 1) = lit ''completed''
      \<or> status (tasks fallback_after_data ! 1) = lit ''failed''"
    by simp
  moreover have "status (tasks fallback_after_data ! 1) \<noteq> lit ''failed''"
    using \<open>map (\<lambda>t. (task_id t, status t, result t)) (tasks fallback_after_data) ! 1
      = (lit ''data_collection'', lit ''completed'', Some (lit ''ok''))\<close> len
    by simp
  ultimately show ?thesis
    using reachable_fallback_after_data mem res by blast
qed

text \<open>
  Against claim C5 as stated: after the scheduler's step on the root of the fallback
  graph, a reachable graph holds a task (the root) that is completed and has no result.
\<close>

theorem root_completed_without_result_counterexample:
  "reachable ex_manager fallback_after_root
   \<and> tasks fallback_after_root ! 0 \<in> set (tasks fallback_after_root)
   \<and> task_id (tasks fallback_after_root ! 0) = lit ''root''
   \<and> status (tasks fallback_after_root ! 0) = lit ''completed''
   \<and> result (tasks fallback_after_root ! 0) = None"
proof -
  have "map (\<lambda>t. (task_id t, status t, result t)) (tasks fallback_after_root) ! 0
      = (lit ''root'', lit ''completed'', None)"
    by (simp add: fallback_after_root_view)
  moreover have len: "length (tasks fallback_after_root) = 6"
    using arg_cong [OF fallback_after_root_view, of length] by simp
  ultimately have "task_id (tasks fallback_after_root ! 0) = lit ''root''"
    and "status (tasks fallback_after_root ! 0) = lit ''completed''"
    and "result (tasks fallback_after_root ! 0) = None"
    by simp_all
  moreover from len have "tasks fallback_after_root ! 0 \<in> set (tasks fallback_after_root)"
    by simp
  ultimately show ?thesis
    using reachable_fallback_after_root by blast
qed

end
